theory Spec2Isabelle
  imports Main "HOL-Library.Sublist" "HOL-Library.Word"
begin

section \<open>Data structures of \<^verbatim>\<open>main.go\<close>\<close>

text \<open>
  Go strings are byte sequences; they are modelled as \<^typ>\<open>string\<close> (lists of 8-bit
  characters). Fields that occur under the same name in several Go structs carry a
  suffix naming their struct. Writes to the console (\<^verbatim>\<open>fmt.Print*\<close>) change no
  program state and are left out of the model; the flags \<open>debug\<close> and
  \<open>streamOutput\<close>, which only select what is printed, are kept as parameters.
\<close>

record Message =
  Role :: string
  Content :: string

record StreamRequest =
  Model_req :: string
  Messages :: "Message list"
  Stream :: bool

record Delta =
  Content_delta :: string

record Choice =
  Delta :: Delta
  FinishReason :: string

record Usage =
  PromptTokens :: "64 word"
  CompletionTokens :: "64 word"
  TotalTokens :: "64 word"

record StreamResponse =
  ID :: string
  Model_resp :: string
  Choices :: "Choice list"
  Usage :: Usage

text \<open>
  The errors the program creates, one constructor per \<^verbatim>\<open>errors.New\<close> /
  \<^verbatim>\<open>fmt.Errorf\<close> site (the wrapped cause is not kept):
  empty command (line 114), JSON encoding (307), request creation (316), request
  sending (324), API status with code and body (330), stream read (349), JSON parse
  (362), no reply content (389).
\<close>

datatype error =
    ErrEmptyCommand
  | ErrMarshal
  | ErrNewRequest
  | ErrDo
  | ErrAPI int string
  | ErrReadStream
  | ErrParseJSON
  | ErrNoContent

section \<open>The response body as a reader\<close>

text \<open>
  An \<^verbatim>\<open>io.Reader\<close> delivers finitely many bytes and then an error: \<^verbatim>\<open>io.EOF\<close> or
  some other read error. \<^verbatim>\<open>bufio.Reader.ReadBytes(delim)\<close> returns the bytes up to and
  including the first delimiter, or, when the data ends before a delimiter, the bytes
  read so far together with the error.
\<close>

datatype io_error = EOF | ErrOther

record Reader =
  unread :: string
  at_end :: io_error

fun cut_line :: "char \<Rightarrow> string \<Rightarrow> (string \<times> string) option" where
  "cut_line delim [] = None"
| "cut_line delim (c # cs) =
     (if c = delim then Some ([c], cs)
      else (case cut_line delim cs of
              None \<Rightarrow> None
            | Some (l, rest) \<Rightarrow> Some (c # l, rest)))"

definition ReadBytes :: "char \<Rightarrow> Reader \<Rightarrow> string \<times> io_error option \<times> Reader" where
  "ReadBytes delim r =
     (case cut_line delim (unread r) of
        Some (line, rest) \<Rightarrow> (line, None, r\<lparr>unread := rest\<rparr>)
      | None \<Rightarrow> (unread r, Some (at_end r), r\<lparr>unread := []\<rparr>))"

definition newline :: char where
  "newline = CHR 0x0A"

section \<open>The stream decoder: \<^verbatim>\<open>processStreamResponse\<close>\<close>

text \<open>
  \<^verbatim>\<open>json.Unmarshal\<close> into a \<^verbatim>\<open>StreamResponse\<close> belongs to the Go standard library; the
  decoder takes it as the parameter \<open>unmarshal\<close>, with \<open>None\<close> for a returned error.

  One pass through the body of the \<^verbatim>\<open>for\<close> loop after a successful read (lines
  352 to 385) either continues, breaks, or returns an error; the two strings are the
  accumulators \<^verbatim>\<open>fullResponse\<close> and \<^verbatim>\<open>requestID\<close>.
\<close>

datatype loop_ctl = Continue string string | Break string string | ReturnErr error

definition loop_body ::
  "(string \<Rightarrow> StreamResponse option) \<Rightarrow> bool \<Rightarrow> bool \<Rightarrow> string \<Rightarrow> string \<Rightarrow> string \<Rightarrow> loop_ctl"
where
  \<open>loop_body unmarshal debug streamOutput line fullResponse requestID =
     (if length line < 6 \<or> \<not> prefix ''data: '' line then Continue fullResponse requestID
      else if line = ''data: [DONE]\<newline>'' then Break fullResponse requestID
      else
        (case unmarshal (drop 6 line) of
           None \<Rightarrow> ReturnErr ErrParseJSON
         | Some chunk \<Rightarrow>
             (let requestID' =
                    (if requestID = [] \<and> ID chunk \<noteq> [] then ID chunk else requestID)
              in case Choices chunk of
                   [] \<Rightarrow> Continue fullResponse requestID'
                 | choice # _ \<Rightarrow>
                     (let content = Content_delta (Delta choice);
                          fullResponse' =
                            (if content \<noteq> [] then fullResponse @ content else fullResponse)
                      in if FinishReason choice = ''stop''
                         then Break fullResponse' requestID'
                         else Continue fullResponse' requestID'))))\<close>

function decode_loop ::
  "(string \<Rightarrow> StreamResponse option) \<Rightarrow> bool \<Rightarrow> bool \<Rightarrow> Reader \<Rightarrow> string \<Rightarrow> string
     \<Rightarrow> error + string \<times> string"
where
  "decode_loop unmarshal debug streamOutput reader fullResponse requestID =
     (case ReadBytes newline reader of
        (line, Some err, reader') \<Rightarrow>
          (if err = EOF then Inr (fullResponse, requestID) else Inl ErrReadStream)
      | (line, None, reader') \<Rightarrow>
          (case loop_body unmarshal debug streamOutput line fullResponse requestID of
             Continue fullResponse' requestID' \<Rightarrow>
               decode_loop unmarshal debug streamOutput reader' fullResponse' requestID'
           | Break fullResponse' requestID' \<Rightarrow> Inr (fullResponse', requestID')
           | ReturnErr e \<Rightarrow> Inl e))"
  by pat_completeness auto

termination decode_loop
proof (relation "measure (\<lambda>(um, dbg, so, r, full, rid). length (unread r))", goal_cases)
  case 1
  show ?case by simp
next
  case (2 unmarshal debug streamOutput reader fullResponse requestID x y line reader' full' rid')
  have shorter: "cut_line d xs = Some (l, rest) \<Longrightarrow> length rest < length xs"
    for d xs l rest
    by (induction xs arbitrary: l) (auto split: if_splits option.splits)
  from 2 have "length (unread reader') < length (unread reader)"
    by (auto simp: ReadBytes_def split: option.splits dest!: shorter)
  then show ?case by simp
qed

declare decode_loop.simps [simp del]

text \<open>
  The whole function (lines 336 to 393). Its Go result is the triple
  \<^verbatim>\<open>(string, string, error)\<close>, with \<open>None\<close> for a \<^verbatim>\<open>nil\<close> error.
\<close>

definition processStreamResponse ::
  "(string \<Rightarrow> StreamResponse option) \<Rightarrow> Reader \<Rightarrow> bool \<Rightarrow> bool \<Rightarrow> string \<times> string \<times> error option"
where
  "processStreamResponse unmarshal body debug streamOutput =
     (case decode_loop unmarshal debug streamOutput body [] [] of
        Inl e \<Rightarrow> ([], [], Some e)
      | Inr (fullResponse, requestID) \<Rightarrow>
          (if length fullResponse = 0 then ([], [], Some ErrNoContent)
           else (fullResponse, requestID, None)))"

section \<open>Configuration, session state and the outside world\<close>

text \<open>
  The command-line flags (lines 20 to 29), read-only after \<^verbatim>\<open>flag.Parse\<close>.
\<close>

record Config =
  apiKey :: string
  defaultModel :: string
  apiEndpoint :: string
  timeoutSec :: "64 word"
  historyFile :: string
  command :: string
  enableStream :: bool
  enableDebug :: bool

text \<open>
  The \<^verbatim>\<open>http.Client\<close> built in \<^verbatim>\<open>main\<close> (lines 74 to 81): its timeout and the three
  transport settings. Durations are \<^verbatim>\<open>int64\<close> nanoseconds.
\<close>

record http_Client =
  Timeout :: "64 word"
  MaxIdleConns :: int
  IdleConnTimeout :: "64 word"
  DisableCompression :: bool

record ChatState =
  Model :: string
  History :: "Message list"
  CmdHistory :: "string list"
  Client :: http_Client
  Debug :: bool
  LastRequestID :: string
  isSingleCmd :: bool

record Request =
  Method :: string
  URL :: string
  Header :: "string \<rightharpoonup> string"
  ReqBody :: string

record Response =
  StatusCode :: int
  Body :: Reader

text \<open>
  The library calls whose results the program branches on, as the functions of a
  \<open>World\<close>: \<^verbatim>\<open>strings.TrimSpace\<close>, \<^verbatim>\<open>json.Marshal\<close>, \<^verbatim>\<open>http.NewRequest\<close> (method, URL,
  body), \<^verbatim>\<open>Client.Do\<close> and \<^verbatim>\<open>json.Unmarshal\<close>. \<open>None\<close> stands for a returned error.
\<close>

record World =
  TrimSpace :: "string \<Rightarrow> string"
  Marshal :: "StreamRequest \<Rightarrow> string option"
  NewRequest :: "string \<Rightarrow> string \<Rightarrow> string \<Rightarrow> Request option"
  Do :: "http_Client \<Rightarrow> Request \<Rightarrow> Response option"
  Unmarshal :: "string \<Rightarrow> StreamResponse option"

text \<open>A call either returns or ends the process through \<^verbatim>\<open>os.Exit\<close>.\<close>

datatype 'a exec = Exits int | Returns 'a

section \<open>Session operations\<close>

definition system_preamble :: Message where
  "system_preamble = \<lparr>Role = ''system'', Content = ''You are a helpful assistant.''\<rparr>"

text \<open>The state built by \<^verbatim>\<open>main\<close> (lines 74 to 90).\<close>

definition initialChatState :: "Config \<Rightarrow> ChatState" where
  "initialChatState cfg =
     \<lparr>Model = defaultModel cfg,
      History = [\<lparr>Role = ''system'', Content = ''You are a helpful assistant.''\<rparr>],
      CmdHistory = [],
      Client = \<lparr>Timeout = timeoutSec cfg * 1000000000, MaxIdleConns = 10,
                 IdleConnTimeout = 30 * 1000000000, DisableCompression = False\<rparr>,
      Debug = enableDebug cfg,
      LastRequestID = [],
      isSingleCmd = (command cfg \<noteq> [])\<rparr>"

definition resetConversation :: "ChatState \<Rightarrow> ChatState" where
  "resetConversation state =
     state\<lparr>History := [\<lparr>Role = ''system'', Content = ''You are a helpful assistant.''\<rparr>],
           LastRequestID := []\<rparr>"

text \<open>\<^verbatim>\<open>strings.Split(s, sep)\<close> for a one-byte separator.\<close>

fun Split :: "string \<Rightarrow> char \<Rightarrow> string list" where
  "Split [] sep = [[]]"
| "Split (c # cs) sep =
     (if c = sep then [] # Split cs sep
      else (case Split cs sep of
              [] \<Rightarrow> [[c]]
            | p # ps \<Rightarrow> (c # p) # ps))"

definition handleModelSwitch :: "string \<Rightarrow> ChatState \<Rightarrow> ChatState" where
  "handleModelSwitch input state =
     (let parts = Split input (CHR '' '') in
      if length parts < 2 then state
      else
        (let newModel = parts ! 1 in
         if newModel \<in> {''qwen-plus'', ''qwen-max'', ''qwen-turbo'', ''deepseek-r1'', ''deepseek-v3''}
         then state\<lparr>Model := newModel\<rparr>
         else state))"

definition toggleDebugMode :: "ChatState \<Rightarrow> ChatState" where
  "toggleDebugMode state = state\<lparr>Debug := \<not> Debug state\<rparr>"

text \<open>\<^verbatim>\<open>printHelp\<close> and \<^verbatim>\<open>showCommandHistory\<close> only print.\<close>

definition handleCommand :: "string \<Rightarrow> ChatState \<Rightarrow> (bool \<times> ChatState) exec" where
  "handleCommand input state =
     (if input = ''exit'' \<or> input = ''/quit'' then Exits 0
      else if input = ''/reset'' then Returns (True, resetConversation state)
      else if prefix ''/model'' input then Returns (True, handleModelSwitch input state)
      else if input = ''/debug'' then Returns (True, toggleDebugMode state)
      else if input = ''/help'' then Returns (True, state)
      else if input = ''/history'' then Returns (True, state)
      else Returns (False, state))"

section \<open>One turn: transport, decoding, history update\<close>

definition streamChatCompletion ::
  "World \<Rightarrow> Config \<Rightarrow> ChatState \<Rightarrow> bool \<Rightarrow> string \<times> string \<times> error option"
where
  "streamChatCompletion w cfg state streamOutput =
     (let payload = \<lparr>Model_req = Model state, Messages = History state, Stream = True\<rparr> in
      case Marshal w payload of
        None \<Rightarrow> ([], [], Some ErrMarshal)
      | Some jsonData \<Rightarrow>
          (case NewRequest w ''POST'' (apiEndpoint cfg) jsonData of
             None \<Rightarrow> ([], [], Some ErrNewRequest)
           | Some req0 \<Rightarrow>
               (let req = req0\<lparr>Header := (Header req0)
                            (''Content-Type'' \<mapsto> ''application/json'',
                             ''Authorization'' \<mapsto> ''Bearer '' @ apiKey cfg)\<rparr> in
                case Do w (Client state) req of
                  None \<Rightarrow> ([], [], Some ErrDo)
                | Some resp \<Rightarrow>
                    if StatusCode resp \<noteq> 200
                    then ([], [], Some (ErrAPI (StatusCode resp) (unread (Body resp))))
                    else processStreamResponse (Unmarshal w) (Body resp) (Debug state) streamOutput)))"

definition processAIResponse ::
  "World \<Rightarrow> Config \<Rightarrow> ChatState \<Rightarrow> bool \<Rightarrow> ChatState \<times> string \<times> error option"
where
  "processAIResponse w cfg state streamOutput =
     (case streamChatCompletion w cfg state streamOutput of
        (aiReply, requestID, Some err) \<Rightarrow> (state, [], Some err)
      | (aiReply, requestID, None) \<Rightarrow>
          (state\<lparr>LastRequestID := requestID,
                 History := History state @ [\<lparr>Role = ''assistant'', Content = aiReply\<rparr>]\<rparr>,
           aiReply, None))"

text \<open>
  The user turn as both callers write it (lines 123 to 124 and 170 to 171): the user
  message is appended to the history, then \<^verbatim>\<open>processAIResponse\<close> runs.
\<close>

definition userTurn ::
  "World \<Rightarrow> Config \<Rightarrow> ChatState \<Rightarrow> string \<Rightarrow> bool \<Rightarrow> ChatState \<times> string \<times> error option"
where
  "userTurn w cfg state input streamOutput =
     processAIResponse w cfg
       (state\<lparr>History := History state @ [\<lparr>Role = ''user'', Content = input\<rparr>]\<rparr>)
       streamOutput"

definition executeSingleCommand ::
  "World \<Rightarrow> Config \<Rightarrow> ChatState \<Rightarrow> string \<Rightarrow> (ChatState \<times> error option) exec"
where
  "executeSingleCommand w cfg state cmd0 =
     (let cmd = TrimSpace w cmd0 in
      if cmd = [] then Returns (state, Some ErrEmptyCommand)
      else
        (let state1 = state\<lparr>CmdHistory := CmdHistory state @ [cmd]\<rparr> in
         case handleCommand cmd state1 of
           Exits n \<Rightarrow> Exits n
         | Returns (True, state2) \<Rightarrow> Returns (state2, None)
         | Returns (False, state2) \<Rightarrow>
             (case userTurn w cfg state2 cmd (enableStream cfg) of
                (state3, reply, err) \<Rightarrow> Returns (state3, err))))"

text \<open>
  One iteration of the loop of \<^verbatim>\<open>startInteractiveSession\<close> (lines 145 to 174), given
  what \<^verbatim>\<open>rl.Readline()\<close> returned: a line, an interrupt with the partial input, end of
  input, or another error.
\<close>

datatype readline_result = Line string | ErrInterrupt string | ErrEOF | ErrReadline

datatype loop_next = BreakLoop ChatState | NextIteration ChatState

definition sessionIteration ::
  "World \<Rightarrow> Config \<Rightarrow> readline_result \<Rightarrow> ChatState \<Rightarrow> loop_next exec"
where
  "sessionIteration w cfg rl state =
     (case rl of
        ErrInterrupt input0 \<Rightarrow>
          Returns (if length input0 = 0 then BreakLoop state else NextIteration state)
      | ErrEOF \<Rightarrow> Returns (BreakLoop state)
      | ErrReadline \<Rightarrow> Returns (NextIteration state)
      | Line input0 \<Rightarrow>
          (let input = TrimSpace w input0 in
           if input = [] then Returns (NextIteration state)
           else
             (let state1 = state\<lparr>CmdHistory := CmdHistory state @ [input]\<rparr> in
              case handleCommand input state1 of
                Exits n \<Rightarrow> Exits n
              | Returns (True, state2) \<Rightarrow> Returns (NextIteration state2)
              | Returns (False, state2) \<Rightarrow>
                  (case userTurn w cfg state2 input True of
                     (state3, reply, err) \<Rightarrow> Returns (NextIteration state3)))))"

text \<open>
  The states a session can be in between operations: the initial one, and the one left
  by a loop iteration or by \<^verbatim>\<open>executeSingleCommand\<close>, each in any world.
\<close>

inductive reachable :: "Config \<Rightarrow> ChatState \<Rightarrow> bool" for cfg :: Config where
  init: "reachable cfg (initialChatState cfg)"
| iteration_next:
    "reachable cfg s \<Longrightarrow> sessionIteration w cfg rl s = Returns (NextIteration s')
       \<Longrightarrow> reachable cfg s'"
| iteration_break:
    "reachable cfg s \<Longrightarrow> sessionIteration w cfg rl s = Returns (BreakLoop s')
       \<Longrightarrow> reachable cfg s'"
| single_command:
    "reachable cfg s \<Longrightarrow> executeSingleCommand w cfg s cmd = Returns (s', err)
       \<Longrightarrow> reachable cfg s'"


text \<open>The invariant of the conversation history.\<close>

definition history_ok :: "ChatState \<Rightarrow> bool" where
  "history_ok s \<longleftrightarrow> History s \<noteq> [] \<and> hd (History s) = system_preamble"

section \<open>Specification-level notions for event streams\<close>

text \<open>
  The following definitions are not part of the program. They describe an event stream
  the way the specification speaks of it: a sequence of newline-terminated lines, each
  either skipped by the decoder or a data record with a payload that parses, the events
  carried by these lines, their first-choice text fragments and ids.
\<close>

definition DONE_line :: string where
  \<open>DONE_line = ''data: [DONE]\<newline>''\<close>

definition is_line :: "string \<Rightarrow> bool" where
  "is_line l \<longleftrightarrow> l \<noteq> [] \<and> last l = newline \<and> newline \<notin> set (butlast l)"

definition skipped :: "string \<Rightarrow> bool" where
  "skipped l \<longleftrightarrow> length l < 6 \<or> \<not> prefix ''data: '' l"

definition event_of :: "(string \<Rightarrow> StreamResponse option) \<Rightarrow> string \<Rightarrow> StreamResponse option" where
  "event_of um l = (if skipped l then None else um (drop 6 l))"

definition well_formed_line :: "(string \<Rightarrow> StreamResponse option) \<Rightarrow> string \<Rightarrow> bool" where
  "well_formed_line um l \<longleftrightarrow>
     is_line l \<and> l \<noteq> DONE_line \<and> (skipped l \<or> um (drop 6 l) \<noteq> None)"

fun events :: "(string \<Rightarrow> StreamResponse option) \<Rightarrow> string list \<Rightarrow> StreamResponse list" where
  "events um [] = []"
| "events um (l # ls) =
     (case event_of um l of None \<Rightarrow> events um ls | Some c \<Rightarrow> c # events um ls)"

definition first_content :: "StreamResponse \<Rightarrow> string" where
  "first_content c = (case Choices c of [] \<Rightarrow> [] | ch # _ \<Rightarrow> Content_delta (Delta ch))"

definition is_stop :: "StreamResponse \<Rightarrow> bool" where
  "is_stop c = (case Choices c of [] \<Rightarrow> False | ch # _ \<Rightarrow> FinishReason ch = ''stop'')"

fun until_stop :: "StreamResponse list \<Rightarrow> StreamResponse list" where
  "until_stop [] = []"
| "until_stop (c # cs) = (if is_stop c then [c] else c # until_stop cs)"

definition text_of :: "StreamResponse list \<Rightarrow> string" where
  "text_of cs = concat (map first_content cs)"

fun first_id :: "StreamResponse list \<Rightarrow> string" where
  "first_id [] = []"
| "first_id (c # cs) = (if ID c \<noteq> [] then ID c else first_id cs)"

section \<open>Example data\<close>

text \<open>
  The flag defaults with a key; a world whose network is down, with a
  \<^verbatim>\<open>TrimSpace\<close> that agrees with the library on ASCII input.
\<close>

definition example_config :: Config where
  "example_config =
     \<lparr>apiKey = ''sk-test'', defaultModel = ''qwen-plus'',
      apiEndpoint = ''https://dashscope.aliyuncs.com/compatible-mode/v1/chat/completions'',
      timeoutSec = 300, historyFile = [], command = [], enableStream = False,
      enableDebug = False\<rparr>"

definition is_ascii_space :: "char \<Rightarrow> bool" where
  "is_ascii_space c \<longleftrightarrow> c \<in> {CHR '' '', CHR 0x09, CHR 0x0A, CHR 0x0B, CHR 0x0C, CHR 0x0D}"

definition trim_ascii :: "string \<Rightarrow> string" where
  "trim_ascii s = rev (dropWhile is_ascii_space (rev (dropWhile is_ascii_space s)))"

definition offline_world :: World where
  "offline_world =
     \<lparr>TrimSpace = trim_ascii,
      Marshal = (\<lambda>payload. Some []),
      NewRequest = (\<lambda>m u b. Some \<lparr>Method = m, URL = u, Header = Map.empty, ReqBody = b\<rparr>),
      Do = (\<lambda>c req. None),
      Unmarshal = (\<lambda>payload. None)\<rparr>"

text \<open>
  An excerpt of \<^verbatim>\<open>json.Unmarshal\<close> into \<^verbatim>\<open>StreamResponse\<close>: its results on the payloads
  of the example lines below. Every other payload is rejected by the excerpt, which is
  used on the listed payloads and on \<^verbatim>\<open>{oops\<close> only.
\<close>

definition mk_choice :: "string \<Rightarrow> string \<Rightarrow> Choice" where
  "mk_choice content reason = \<lparr>Delta = \<lparr>Content_delta = content\<rparr>, FinishReason = reason\<rparr>"

definition mk_chunk :: "string \<Rightarrow> Choice list \<Rightarrow> StreamResponse" where
  "mk_chunk i cs =
     \<lparr>ID = i, Model_resp = [], Choices = cs,
      Usage = \<lparr>PromptTokens = 0, CompletionTokens = 0, TotalTokens = 0\<rparr>\<rparr>"

definition example_unmarshal :: "string \<Rightarrow> StreamResponse option" where
  \<open>example_unmarshal payload =
     (if payload = ''{"id":"r1","choices":[{"delta":{"content":"Hel"}}]}\<newline>''
        then Some (mk_chunk ''r1'' [mk_choice ''Hel'' []])
      else if payload = ''{"id":"r1","choices":[{"delta":{"content":"lo"}}]}\<newline>''
        then Some (mk_chunk ''r1'' [mk_choice ''lo'' []])
      else if payload = ''{"id":"r1","choices":[{"delta":{"content":"lo"},"finish_reason":"stop"}]}\<newline>''
        then Some (mk_chunk ''r1'' [mk_choice ''lo'' ''stop''])
      else if payload = ''{"id":"r1","choices":[{"delta":{},"finish_reason":"stop"}]}\<newline>''
        then Some (mk_chunk ''r1'' [mk_choice [] ''stop''])
      else if payload = ''{"id":"r1","choices":[{"delta":{}}]}\<newline>''
        then Some (mk_chunk ''r1'' [mk_choice [] []])
      else None)\<close>

definition line_Hel :: string where
  \<open>line_Hel = ''data: {"id":"r1","choices":[{"delta":{"content":"Hel"}}]}\<newline>''\<close>

definition line_lo :: string where
  \<open>line_lo = ''data: {"id":"r1","choices":[{"delta":{"content":"lo"}}]}\<newline>''\<close>

definition line_lo_stop :: string where
  \<open>line_lo_stop = ''data: {"id":"r1","choices":[{"delta":{"content":"lo"},"finish_reason":"stop"}]}\<newline>''\<close>

definition line_stop :: string where
  \<open>line_stop = ''data: {"id":"r1","choices":[{"delta":{},"finish_reason":"stop"}]}\<newline>''\<close>

definition line_role :: string where
  \<open>line_role = ''data: {"id":"r1","choices":[{"delta":{}}]}\<newline>''\<close>

definition line_bad :: string where
  \<open>line_bad = ''data: {oops\<newline>''\<close>

section \<open>Decoder properties\<close>

lemma cut_line_append: "d \<notin> set b \<Longrightarrow> cut_line d (b @ d # rest) = Some (b @ [d], rest)"
  by (induction b) auto

lemma cut_line_None: "d \<notin> set xs \<Longrightarrow> cut_line d xs = None"
  by (induction xs) auto

lemma cut_line_extend:
  "d \<notin> set t \<Longrightarrow> cut_line d (xs @ t) = map_option (\<lambda>(l, r). (l, r @ t)) (cut_line d xs)"
  by (induction xs) (auto simp: cut_line_None split: option.splits)

lemma is_lineE:
  assumes "is_line l"
  obtains b where "l = b @ [newline]" and "newline \<notin> set b"
proof -
  from assms have "l = butlast l @ [newline]" and "newline \<notin> set (butlast l)"
    by (auto simp: is_line_def dest: append_butlast_last_id)
  then show thesis using that by blast
qed

lemma is_line_snoc: "newline \<notin> set b \<Longrightarrow> is_line (b @ [newline])"
  by (simp add: is_line_def)

lemma ReadBytes_line:
  assumes "is_line l"
  shows "ReadBytes newline \<lparr>unread = l @ rest, at_end = e\<rparr>
           = (l, None, \<lparr>unread = rest, at_end = e\<rparr>)"
proof -
  from assms obtain b where "l = b @ [newline]" and "newline \<notin> set b" by (rule is_lineE)
  then show ?thesis by (simp add: ReadBytes_def cut_line_append)
qed

lemma ReadBytes_tail:
  "newline \<notin> set t \<Longrightarrow>
     ReadBytes newline \<lparr>unread = t, at_end = e\<rparr> = (t, Some e, \<lparr>unread = [], at_end = e\<rparr>)"
  by (simp add: ReadBytes_def cut_line_None)

lemma decode_loop_line:
  assumes "is_line l"
  shows "decode_loop um dbg so \<lparr>unread = l @ rest, at_end = e\<rparr> full rid =
           (case loop_body um dbg so l full rid of
              Continue f i \<Rightarrow> decode_loop um dbg so \<lparr>unread = rest, at_end = e\<rparr> f i
            | Break f i \<Rightarrow> Inr (f, i)
            | ReturnErr x \<Rightarrow> Inl x)"
  by (subst decode_loop.simps) (simp add: ReadBytes_line [OF assms])

lemma decode_loop_tail:
  "newline \<notin> set t \<Longrightarrow>
     decode_loop um dbg so \<lparr>unread = t, at_end = e\<rparr> full rid =
       (if e = EOF then Inr (full, rid) else Inl ErrReadStream)"
  by (subst decode_loop.simps) (simp add: ReadBytes_tail)

lemma loop_body_skipped: "skipped l \<Longrightarrow> loop_body um dbg so l full rid = Continue full rid"
  by (auto simp: loop_body_def skipped_def)

lemma loop_body_DONE: "loop_body um dbg so DONE_line full rid = Break full rid"
  by (simp add: loop_body_def DONE_line_def)

lemma loop_body_malformed:
  "\<not> skipped l \<Longrightarrow> l \<noteq> DONE_line \<Longrightarrow> um (drop 6 l) = None
     \<Longrightarrow> loop_body um dbg so l full rid = ReturnErr ErrParseJSON"
  by (auto simp: loop_body_def skipped_def DONE_line_def)

lemma loop_body_event:
  assumes "\<not> skipped l" and "l \<noteq> DONE_line" and "um (drop 6 l) = Some c"
  shows "loop_body um dbg so l full rid =
           (if is_stop c
            then Break (full @ first_content c) (if rid = [] then ID c else rid)
            else Continue (full @ first_content c) (if rid = [] then ID c else rid))"
  using assms
  by (auto simp: loop_body_def skipped_def DONE_line_def is_stop_def first_content_def Let_def
      split: list.splits)

lemma is_line_DONE: "is_line DONE_line"
  by (simp add: is_line_def DONE_line_def newline_def)

lemma until_stop_no_stop: "\<not> (\<exists>c\<in>set cs. is_stop c) \<Longrightarrow> until_stop cs = cs"
  by (induction cs) auto

lemma decode_loop_lines:
  assumes "\<forall>l\<in>set ls. well_formed_line um l"
  shows "decode_loop um dbg so \<lparr>unread = concat ls @ rest, at_end = e\<rparr> full rid =
     (if \<exists>c\<in>set (events um ls). is_stop c
      then Inr (full @ text_of (until_stop (events um ls)),
                if rid = [] then first_id (until_stop (events um ls)) else rid)
      else decode_loop um dbg so \<lparr>unread = rest, at_end = e\<rparr>
             (full @ text_of (events um ls))
             (if rid = [] then first_id (events um ls) else rid))"
  using assms
proof (induction ls arbitrary: full rid)
  case Nil
  show ?case by (simp add: text_of_def)
next
  case (Cons l ls)
  then have wf: "well_formed_line um l" and rest: "\<forall>l\<in>set ls. well_formed_line um l"
    by simp_all
  from wf have line: "is_line l" and nd: "l \<noteq> DONE_line"
    by (simp_all add: well_formed_line_def)
  have unfold: "decode_loop um dbg so \<lparr>unread = concat (l # ls) @ rest, at_end = e\<rparr> full rid =
           (case loop_body um dbg so l full rid of
              Continue f i \<Rightarrow> decode_loop um dbg so \<lparr>unread = concat ls @ rest, at_end = e\<rparr> f i
            | Break f i \<Rightarrow> Inr (f, i)
            | ReturnErr x \<Rightarrow> Inl x)"
    using decode_loop_line [OF line, of um dbg so "concat ls @ rest" e full rid] by simp
  show ?case
  proof (cases "skipped l")
    case True
    then have ev: "events um (l # ls) = events um ls" by (simp add: event_of_def)
    show ?thesis
      unfolding unfold ev by (simp add: loop_body_skipped [OF True] Cons.IH [OF rest])
  next
    case False
    with wf obtain c where c: "um (drop 6 l) = Some c"
      by (auto simp: well_formed_line_def)
    with False have ev: "events um (l # ls) = c # events um ls" by (simp add: event_of_def)
    show ?thesis
    proof (cases "is_stop c")
      case True
      then show ?thesis
        unfolding unfold ev by (simp add: loop_body_event [where um = um, OF False nd c] text_of_def)
    next
      case ns: False
      then show ?thesis
        unfolding unfold ev
        by (simp add: loop_body_event [where um = um, OF False nd c] Cons.IH [OF rest] text_of_def)
    qed
  qed
qed

lemma decode_loop_DONE:
  "decode_loop um dbg so \<lparr>unread = DONE_line @ rest, at_end = e\<rparr> full rid = Inr (full, rid)"
  by (simp add: decode_loop_line [OF is_line_DONE] loop_body_DONE)

lemma decode_loop_lines_DONE:
  assumes "\<forall>l\<in>set ls. well_formed_line um l"
  shows "decode_loop um dbg so \<lparr>unread = concat ls @ DONE_line @ rest, at_end = e\<rparr> full rid =
     Inr (full @ text_of (until_stop (events um ls)),
          if rid = [] then first_id (until_stop (events um ls)) else rid)"
  by (simp add: decode_loop_lines [OF assms] decode_loop_DONE until_stop_no_stop)

text \<open>
  Claim C1 (as amended). For a stream of well-formed lines followed by the terminator
  line, the decoder aggregates the records it parses, which are those up to and
  including the first one whose first choice has finish reason \<^verbatim>\<open>stop\<close>: when the
  concatenation of their first-choice fragments is non-empty it returns that text and
  the first non-empty id; when the concatenation is empty it returns the no-content
  error with empty text and empty id.
\<close>

theorem decode_done_stream:
  assumes "\<forall>l\<in>set ls. well_formed_line um l"
  shows "processStreamResponse um \<lparr>unread = concat ls @ DONE_line @ rest, at_end = e\<rparr> dbg so =
     (if text_of (until_stop (events um ls)) = [] then ([], [], Some ErrNoContent)
      else (text_of (until_stop (events um ls)), first_id (until_stop (events um ls)), None))"
  by (simp add: processStreamResponse_def decode_loop_lines_DONE [OF assms])

lemma example_events:
  "event_of example_unmarshal line_Hel = Some (mk_chunk ''r1'' [mk_choice ''Hel'' []])"
  "event_of example_unmarshal line_lo = Some (mk_chunk ''r1'' [mk_choice ''lo'' []])"
  "event_of example_unmarshal line_lo_stop = Some (mk_chunk ''r1'' [mk_choice ''lo'' ''stop''])"
  "event_of example_unmarshal line_stop = Some (mk_chunk ''r1'' [mk_choice [] ''stop''])"
  "event_of example_unmarshal line_role = Some (mk_chunk ''r1'' [mk_choice [] []])"
  by (simp_all add: event_of_def skipped_def example_unmarshal_def
      line_Hel_def line_lo_def line_lo_stop_def line_stop_def line_role_def)

lemma example_well_formed:
  "well_formed_line example_unmarshal line_Hel"
  "well_formed_line example_unmarshal line_lo"
  "well_formed_line example_unmarshal line_lo_stop"
  "well_formed_line example_unmarshal line_stop"
  "well_formed_line example_unmarshal line_role"
  by (simp_all add: well_formed_line_def is_line_def skipped_def example_unmarshal_def
      DONE_line_def newline_def
      line_Hel_def line_lo_def line_lo_stop_def line_stop_def line_role_def)

lemma example_chunk_simps:
  "first_content (mk_chunk i (mk_choice t r # cs)) = t"
  "is_stop (mk_chunk i (mk_choice t r # cs)) = (r = ''stop'')"
  "ID (mk_chunk i cs) = i"
  by (simp_all add: first_content_def is_stop_def mk_chunk_def mk_choice_def)

theorem decode_done_stream_witness:
  "processStreamResponse example_unmarshal
     \<lparr>unread = line_Hel @ line_lo @ DONE_line, at_end = EOF\<rparr> False True
   = (''Hello'', ''r1'', None)"
proof -
  have wf: "\<forall>l\<in>set [line_Hel, line_lo]. well_formed_line example_unmarshal l"
    by (simp add: example_well_formed)
  from decode_done_stream [OF wf, of "[]" EOF False True] show ?thesis
    by (simp add: example_events example_chunk_simps text_of_def)
qed

text \<open>
  Claim C1 as stated fails on a well-formed stream whose records carry an id and no
  text: the decoder returns the no-content error and an empty id, not the id \<^verbatim>\<open>r1\<close>.
\<close>

theorem decode_empty_text_counterexample:
  "well_formed_line example_unmarshal line_role
   \<and> first_id (until_stop (events example_unmarshal [line_role])) = ''r1''
   \<and> processStreamResponse example_unmarshal
        \<lparr>unread = concat [line_role] @ DONE_line, at_end = EOF\<rparr> False False
      = ([], [], Some ErrNoContent)"
proof -
  have wf: "\<forall>l\<in>set [line_role]. well_formed_line example_unmarshal l"
    by (simp add: example_well_formed)
  have "processStreamResponse example_unmarshal
        \<lparr>unread = concat [line_role] @ DONE_line @ [], at_end = EOF\<rparr> False False
      = ([], [], Some ErrNoContent)"
    by (simp only: decode_loop_lines_DONE [OF wf] processStreamResponse_def)
       (simp add: example_events example_chunk_simps text_of_def)
  then show ?thesis
    by (simp add: example_well_formed example_events example_chunk_simps)
qed

text \<open>
  Claim C2 (as amended). When the lines before a complete data record are well formed
  and none of them ends the stream, and the record's payload fails to parse, the
  decoder returns the parse error with empty text and empty id, whatever was
  accumulated before and whatever follows.
\<close>

theorem malformed_record_fails:
  assumes "\<forall>l\<in>set ls. well_formed_line um l"
    and "\<not> (\<exists>c\<in>set (events um ls). is_stop c)"
    and "is_line bad" and "\<not> skipped bad" and "bad \<noteq> DONE_line"
    and "um (drop 6 bad) = None"
  shows "processStreamResponse um \<lparr>unread = concat ls @ bad @ rest, at_end = e\<rparr> dbg so
           = ([], [], Some ErrParseJSON)"
proof -
  have "decode_loop um dbg so \<lparr>unread = bad @ rest, at_end = e\<rparr> full rid = Inl ErrParseJSON"
    for full rid
    by (simp add: decode_loop_line [OF assms(3)]
        loop_body_malformed [where um = um, OF assms(4) assms(5) assms(6)])
  then show ?thesis
    using assms(2) by (simp add: processStreamResponse_def decode_loop_lines [OF assms(1)])
qed

theorem malformed_record_fails_witness:
  "processStreamResponse example_unmarshal
     \<lparr>unread = line_Hel @ line_bad @ line_lo @ DONE_line, at_end = EOF\<rparr> False False
   = ([], [], Some ErrParseJSON)"
proof -
  have wf: "\<forall>l\<in>set [line_Hel]. well_formed_line example_unmarshal l"
    by (simp add: example_well_formed)
  have ns: "\<not> (\<exists>c\<in>set (events example_unmarshal [line_Hel]). is_stop c)"
    by (simp add: example_events example_chunk_simps)
  have b: "is_line line_bad" "\<not> skipped line_bad" "line_bad \<noteq> DONE_line"
    "example_unmarshal (drop 6 line_bad) = None"
    by (simp_all add: line_bad_def is_line_def skipped_def DONE_line_def newline_def
        example_unmarshal_def)
  from malformed_record_fails [OF wf ns b, of "line_lo @ DONE_line" EOF False False]
  show ?thesis by simp
qed

text \<open>
  Claim C2 as stated fails when the malformed record stands after the terminator line:
  the decoder has already left the loop and returns the accumulated reply.
\<close>

theorem malformed_after_terminator_counterexample:
  "\<not> skipped line_bad \<and> example_unmarshal (drop 6 line_bad) = None
   \<and> processStreamResponse example_unmarshal
        \<lparr>unread = line_Hel @ DONE_line @ line_bad, at_end = EOF\<rparr> False False
      = (''Hel'', ''r1'', None)"
proof -
  have wf: "\<forall>l\<in>set [line_Hel]. well_formed_line example_unmarshal l"
    by (simp add: example_well_formed)
  have "processStreamResponse example_unmarshal
        \<lparr>unread = concat [line_Hel] @ DONE_line @ line_bad, at_end = EOF\<rparr> False False
      = (''Hel'', ''r1'', None)"
    by (simp only: decode_loop_lines_DONE [OF wf] processStreamResponse_def)
       (simp add: example_events example_chunk_simps text_of_def)
  then show ?thesis
    by (simp add: line_bad_def skipped_def example_unmarshal_def)
qed


lemma skipped_well_formed: "is_line l \<Longrightarrow> skipped l \<Longrightarrow> well_formed_line um l"
  by (auto simp: well_formed_line_def skipped_def DONE_line_def)

lemma events_skipped: "\<forall>l\<in>set ls. skipped l \<Longrightarrow> events um ls = []"
  by (induction ls) (auto simp: event_of_def)

text \<open>
  Claim C3. When the loop ends with nothing accumulated the decoder returns the
  no-content error; in particular for a stream made only of skipped lines (and an
  unterminated rest) that ends with end-of-stream. The decoder never returns an empty
  text without an error.
\<close>

theorem empty_reply_error:
  "(decode_loop um dbg so body [] [] = Inr ([], rid)
      \<longrightarrow> processStreamResponse um body dbg so = ([], [], Some ErrNoContent))
   \<and> ((\<forall>l\<in>set ls. is_line l \<and> skipped l) \<and> newline \<notin> set t
      \<longrightarrow> processStreamResponse um \<lparr>unread = concat ls @ t, at_end = EOF\<rparr> dbg so
           = ([], [], Some ErrNoContent))
   \<and> processStreamResponse um body dbg so \<noteq> ([], rid, None)"
proof (intro conjI impI)
  assume "decode_loop um dbg so body [] [] = Inr ([], rid)"
  then show "processStreamResponse um body dbg so = ([], [], Some ErrNoContent)"
    by (simp add: processStreamResponse_def)
next
  assume a: "(\<forall>l\<in>set ls. is_line l \<and> skipped l) \<and> newline \<notin> set t"
  then have wf: "\<forall>l\<in>set ls. well_formed_line um l"
    by (blast intro: skipped_well_formed)
  from a have ev: "events um ls = []" by (simp add: events_skipped)
  from a show "processStreamResponse um \<lparr>unread = concat ls @ t, at_end = EOF\<rparr> dbg so
           = ([], [], Some ErrNoContent)"
    by (simp add: processStreamResponse_def decode_loop_lines [OF wf] ev decode_loop_tail
        text_of_def)
next
  show "processStreamResponse um body dbg so \<noteq> ([], rid, None)"
    by (auto simp: processStreamResponse_def split: sum.splits if_splits)
qed

theorem empty_reply_error_witness:
  \<open>processStreamResponse example_unmarshal
     \<lparr>unread = concat ['': keep-alive\<newline>'', ''\<newline>'', ''data\<newline>''] @ ''data: [DONE]'',
      at_end = EOF\<rparr> False False
   = ([], [], Some ErrNoContent)\<close>
proof -
  have \<open>(\<forall>l\<in>set ['': keep-alive\<newline>'', ''\<newline>'', ''data\<newline>'']. is_line l \<and> skipped l)
        \<and> newline \<notin> set ''data: [DONE]''\<close>
    by (simp add: is_line_def skipped_def newline_def)
  with empty_reply_error [of example_unmarshal False False
      "\<lparr>unread = [], at_end = EOF\<rparr>" "[]"
      \<open>['': keep-alive\<newline>'', ''\<newline>'', ''data\<newline>'']\<close> \<open>''data: [DONE]''\<close>]
  show ?thesis by blast
qed

lemma text_of_append: "text_of (xs @ ys) = text_of xs @ text_of ys"
  by (simp add: text_of_def)

lemma first_id_append:
  "first_id (xs @ ys) = (if first_id xs = [] then first_id ys else first_id xs)"
  by (induction xs) auto

lemma decode_loop_lines_stop:
  assumes "\<forall>l\<in>set ls. well_formed_line um l"
    and "\<not> (\<exists>c\<in>set (events um ls). is_stop c)"
    and "is_line sl" and "\<not> skipped sl" and "sl \<noteq> DONE_line"
    and "um (drop 6 sl) = Some c" and "is_stop c"
  shows "decode_loop um dbg so \<lparr>unread = concat ls @ sl @ rest, at_end = e\<rparr> [] [] =
           Inr (text_of (events um ls @ [c]), first_id (events um ls @ [c]))"
proof -
  have "decode_loop um dbg so \<lparr>unread = sl @ rest, at_end = e\<rparr> full rid =
          Inr (full @ first_content c, if rid = [] then ID c else rid)" for full rid
    using assms(7)
    by (simp add: decode_loop_line [OF assms(3)]
        loop_body_event [where um = um, OF assms(4) assms(5) assms(6)])
  then show ?thesis
    using assms(2)
    by (simp add: decode_loop_lines [OF assms(1)] text_of_append first_id_append text_of_def)
qed

text \<open>
  Claim C4 (as amended). After the same well-formed, non-terminating lines, a stream
  ending with a record whose first choice has finish reason \<^verbatim>\<open>stop\<close> decodes to the
  same result as one ending with the terminator line, provided the stop record has an
  empty first-choice fragment and its id is empty or an id was captured before.
\<close>

theorem stop_equals_done:
  assumes "\<forall>l\<in>set ls. well_formed_line um l"
    and "\<not> (\<exists>c\<in>set (events um ls). is_stop c)"
    and "is_line sl" and "\<not> skipped sl" and "sl \<noteq> DONE_line"
    and "um (drop 6 sl) = Some c" and "is_stop c"
    and "first_content c = []"
    and "ID c = [] \<or> first_id (events um ls) \<noteq> []"
  shows "processStreamResponse um \<lparr>unread = concat ls @ sl @ rest, at_end = e\<rparr> dbg so
         = processStreamResponse um \<lparr>unread = concat ls @ DONE_line @ rest', at_end = e'\<rparr> dbg so"
proof -
  have t: "text_of (events um ls @ [c]) = text_of (events um ls)"
    using assms(8) by (simp add: text_of_def)
  have i: "first_id (events um ls @ [c]) = first_id (events um ls)"
    using assms(9) by (auto simp: first_id_append)
  show ?thesis
    using assms(2)
    by (simp add: processStreamResponse_def
        decode_loop_lines_stop [OF assms(1-7)] decode_loop_lines_DONE [OF assms(1)]
        until_stop_no_stop t i)
qed

theorem stop_equals_done_witness:
  "processStreamResponse example_unmarshal
     \<lparr>unread = line_Hel @ line_lo @ line_stop, at_end = EOF\<rparr> False False
   = processStreamResponse example_unmarshal
     \<lparr>unread = line_Hel @ line_lo @ DONE_line, at_end = EOF\<rparr> False False
   \<and> processStreamResponse example_unmarshal
     \<lparr>unread = line_Hel @ line_lo @ DONE_line, at_end = EOF\<rparr> False False
     = (''Hello'', ''r1'', None)"
proof -
  have wf: "\<forall>l\<in>set [line_Hel, line_lo]. well_formed_line example_unmarshal l"
    by (simp add: example_well_formed)
  have ns: "\<not> (\<exists>c\<in>set (events example_unmarshal [line_Hel, line_lo]). is_stop c)"
    by (simp add: example_events example_chunk_simps)
  have s: "is_line line_stop" "\<not> skipped line_stop" "line_stop \<noteq> DONE_line"
    "example_unmarshal (drop 6 line_stop) = Some (mk_chunk ''r1'' [mk_choice [] ''stop''])"
    by (simp_all add: line_stop_def is_line_def skipped_def DONE_line_def newline_def
        example_unmarshal_def)
  have c: "is_stop (mk_chunk ''r1'' [mk_choice [] ''stop''])"
    "first_content (mk_chunk ''r1'' [mk_choice [] ''stop'']) = []"
    "ID (mk_chunk ''r1'' [mk_choice [] ''stop'']) = []
     \<or> first_id (events example_unmarshal [line_Hel, line_lo]) \<noteq> []"
    by (simp_all add: example_events example_chunk_simps)
  have d: "processStreamResponse example_unmarshal
     \<lparr>unread = concat [line_Hel, line_lo] @ DONE_line @ [], at_end = EOF\<rparr> False False
     = (''Hello'', ''r1'', None)"
    by (simp only: decode_loop_lines_DONE [OF wf] processStreamResponse_def)
       (simp add: example_events example_chunk_simps text_of_def)
  from stop_equals_done [OF wf ns s c, of "[]" EOF False False "[]" EOF] d
  show ?thesis by simp
qed

text \<open>
  Claim C4 as stated fails when the stop record carries text of its own: the fragment
  is appended before the finish reason is looked at.
\<close>

theorem stop_record_content_counterexample:
  "processStreamResponse example_unmarshal
     \<lparr>unread = line_Hel @ line_lo_stop, at_end = EOF\<rparr> False False
     = (''Hello'', ''r1'', None)
   \<and> processStreamResponse example_unmarshal
     \<lparr>unread = line_Hel @ DONE_line, at_end = EOF\<rparr> False False
     = (''Hel'', ''r1'', None)"
proof -
  have wf: "\<forall>l\<in>set [line_Hel]. well_formed_line example_unmarshal l"
    by (simp add: example_well_formed)
  have ns: "\<not> (\<exists>c\<in>set (events example_unmarshal [line_Hel]). is_stop c)"
    by (simp add: example_events example_chunk_simps)
  have s: "is_line line_lo_stop" "\<not> skipped line_lo_stop" "line_lo_stop \<noteq> DONE_line"
    "example_unmarshal (drop 6 line_lo_stop) = Some (mk_chunk ''r1'' [mk_choice ''lo'' ''stop''])"
    "is_stop (mk_chunk ''r1'' [mk_choice ''lo'' ''stop''])"
    by (simp_all add: line_lo_stop_def is_line_def skipped_def DONE_line_def newline_def
        example_unmarshal_def example_chunk_simps)
  have a: "processStreamResponse example_unmarshal
     \<lparr>unread = concat [line_Hel] @ line_lo_stop @ [], at_end = EOF\<rparr> False False
     = (''Hello'', ''r1'', None)"
    by (simp only: decode_loop_lines_stop [OF wf ns s] processStreamResponse_def)
       (simp add: example_events example_chunk_simps text_of_def)
  have b: "processStreamResponse example_unmarshal
     \<lparr>unread = concat [line_Hel] @ DONE_line @ [], at_end = EOF\<rparr> False False
     = (''Hel'', ''r1'', None)"
    by (simp only: decode_loop_lines_DONE [OF wf] processStreamResponse_def)
       (simp add: example_events example_chunk_simps text_of_def)
  from a b show ?thesis by simp
qed


lemma ReadBytes_extend:
  assumes "newline \<notin> set t"
  shows "ReadBytes newline (r\<lparr>unread := unread r @ t\<rparr>) =
     (case ReadBytes newline r of
        (line, None, r') \<Rightarrow> (line, None, r'\<lparr>unread := unread r' @ t\<rparr>)
      | (line, Some err, r') \<Rightarrow> (line @ t, Some err, r'))"
  using assms by (auto simp: ReadBytes_def cut_line_extend split: option.splits)

lemma decode_loop_trailing:
  assumes "newline \<notin> set t"
  shows "decode_loop um dbg so (r\<lparr>unread := unread r @ t\<rparr>) full rid
         = decode_loop um dbg so r full rid"
proof (induction um dbg so r full rid rule: decode_loop.induct)
  case (1 um dbg so r full rid)
  obtain line oe r' where rb: "ReadBytes newline r = (line, oe, r')"
    by (cases "ReadBytes newline r") auto
  show ?case
  proof (cases oe)
    case (Some err)
    with rb show ?thesis
      by (subst (1 2) decode_loop.simps) (simp add: ReadBytes_extend [OF assms])
  next
    case None
    show ?thesis
    proof (cases "loop_body um dbg so line full rid")
      case (Continue f i)
      from "1.IH" [OF rb [symmetric, unfolded None] refl refl Continue]
      have "decode_loop um dbg so (r'\<lparr>unread := unread r' @ t\<rparr>) f i
            = decode_loop um dbg so r' f i" .
      with rb None Continue show ?thesis
        by (subst (1 2) decode_loop.simps) (simp add: ReadBytes_extend [OF assms])
    next
      case (Break f i)
      with rb None show ?thesis
        by (subst (1 2) decode_loop.simps) (simp add: ReadBytes_extend [OF assms])
    next
      case (ReturnErr x)
      with rb None show ?thesis
        by (subst (1 2) decode_loop.simps) (simp add: ReadBytes_extend [OF assms])
    qed
  qed
qed

text \<open>
  Claim C9. Bytes after the last newline never reach the loop body: the result is that
  of the stream without them, whatever they spell.
\<close>

theorem trailing_bytes_ignored:
  assumes "newline \<notin> set t"
  shows "processStreamResponse um \<lparr>unread = d @ t, at_end = e\<rparr> dbg so
         = processStreamResponse um \<lparr>unread = d, at_end = e\<rparr> dbg so"
  using decode_loop_trailing [OF assms, of um dbg so "\<lparr>unread = d, at_end = e\<rparr>" "[]" "[]"]
  by (simp add: processStreamResponse_def)

theorem trailing_bytes_ignored_witness:
  \<open>processStreamResponse example_unmarshal
     \<lparr>unread = line_Hel @ ''data: [DONE]'', at_end = EOF\<rparr> False False
   = processStreamResponse example_unmarshal
     \<lparr>unread = line_Hel, at_end = EOF\<rparr> False False
   \<and> processStreamResponse example_unmarshal
     \<lparr>unread = line_Hel @ line_lo @ ''data: [DONE]'', at_end = EOF\<rparr> False False
     = (''Hello'', ''r1'', None)\<close>
proof -
  have n: \<open>newline \<notin> set ''data: [DONE]''\<close> by (simp add: newline_def)
  have wf: "\<forall>l\<in>set [line_Hel, line_lo]. well_formed_line example_unmarshal l"
    by (simp add: example_well_formed)
  have \<open>processStreamResponse example_unmarshal
     \<lparr>unread = concat [line_Hel, line_lo] @ ''data: [DONE]'', at_end = EOF\<rparr> False False
     = (''Hello'', ''r1'', None)\<close>
    by (simp only: decode_loop_lines [OF wf] processStreamResponse_def
          decode_loop_tail [OF n])
       (simp add: example_events example_chunk_simps text_of_def)
  with trailing_bytes_ignored [OF n, of example_unmarshal line_Hel EOF False False]
  show ?thesis by simp
qed

section \<open>Session properties\<close>


lemma resetConversation_fields:
  "History (resetConversation s) = [system_preamble]"
  "LastRequestID (resetConversation s) = []"
  "CmdHistory (resetConversation s) = CmdHistory s"
  "Model (resetConversation s) = Model s"
  by (simp_all add: resetConversation_def system_preamble_def)

text \<open>
  Claim C6. Whatever the history was, \<^verbatim>\<open>resetConversation\<close> leaves exactly one
  message, the system preamble, and an empty last request id; the command log is
  untouched. The command \<^verbatim>\<open>/reset\<close> runs exactly this.
\<close>

theorem reset_yields_preamble:
  "History (resetConversation s) = [system_preamble]
   \<and> length (History (resetConversation s)) = 1
   \<and> LastRequestID (resetConversation s) = []
   \<and> CmdHistory (resetConversation s) = CmdHistory s
   \<and> handleCommand ''/reset'' s = Returns (True, resetConversation s)"
  by (simp add: resetConversation_def system_preamble_def handleCommand_def)

lemma Split_nonempty: "Split xs sep \<noteq> []"
  by (induction xs) (auto split: list.splits)

lemma Split_no_sep: "sep \<notin> set xs \<Longrightarrow> Split xs sep = [xs]"
  by (induction xs) auto

lemma Split_field: "sep \<notin> set xs \<Longrightarrow> Split (xs @ sep # ys) sep = xs # Split ys sep"
  by (induction xs) auto

lemma handleModelSwitch_parts:
  "handleModelSwitch input s =
     (case Split input (CHR '' '') of
        _ # name # _ \<Rightarrow>
          if name \<in> {''qwen-plus'', ''qwen-max'', ''qwen-turbo'', ''deepseek-r1'', ''deepseek-v3''}
          then s\<lparr>Model := name\<rparr> else s
      | _ \<Rightarrow> s)"
  by (simp add: handleModelSwitch_def Let_def split: list.splits)

lemma Split_model_request:
  assumes "CHR '' '' \<notin> set name" and "rest = [] \<or> (\<exists>r. rest = CHR '' '' # r)"
  shows "\<exists>ps. Split (''/model '' @ name @ rest) (CHR '' '') = ''/model'' # name # ps"
proof -
  have a: "Split (''/model '' @ name @ rest) (CHR '' '') = ''/model'' # Split (name @ rest) (CHR '' '')"
    using Split_field [of "CHR '' ''" "''/model''" "name @ rest"] by simp
  from assms(2) show ?thesis
  proof
    assume "rest = []"
    with a assms(1) show ?thesis by (simp add: Split_no_sep)
  next
    assume "\<exists>r. rest = CHR '' '' # r"
    then obtain r where "rest = CHR '' '' # r" ..
    with a assms(1) show ?thesis by (simp add: Split_field)
  qed
qed

text \<open>
  Claim C7. A request \<^verbatim>\<open>/model <name>\<close> (the name free of spaces, followed by nothing
  or by a space and anything) sets the model to the name when the name is one of the
  five listed ones and leaves the whole state as it is otherwise; \<^verbatim>\<open>/model\<close> alone
  changes nothing. The function consults nothing but its input string and the state.
\<close>

theorem model_switch_allow_list:
  assumes "CHR '' '' \<notin> set name" and "rest = [] \<or> (\<exists>r. rest = CHR '' '' # r)"
  shows "handleCommand (''/model '' @ name @ rest) s =
           Returns (True,
             if name \<in> {''qwen-plus'', ''qwen-max'', ''qwen-turbo'', ''deepseek-r1'', ''deepseek-v3''}
             then s\<lparr>Model := name\<rparr> else s)
         \<and> handleCommand ''/model'' s = Returns (True, s)"
proof -
  have bare: "handleCommand ''/model'' s = Returns (True, s)"
    by (simp add: handleCommand_def handleModelSwitch_def)
  obtain ps where ps: "Split (''/model '' @ name @ rest) (CHR '' '') = ''/model'' # name # ps"
    using Split_model_request [OF assms] ..
  have "handleModelSwitch (''/model '' @ name @ rest) s =
          (if name \<in> {''qwen-plus'', ''qwen-max'', ''qwen-turbo'', ''deepseek-r1'', ''deepseek-v3''}
           then s\<lparr>Model := name\<rparr> else s)"
    by (simp only: handleModelSwitch_parts ps list.case)
  with bare show ?thesis
    by (simp add: handleCommand_def)
qed



lemma processAIResponse_failure:
  "streamChatCompletion w cfg s so = (a, r, Some err)
     \<Longrightarrow> processAIResponse w cfg s so = (s, [], Some err)"
  by (simp add: processAIResponse_def)

lemma processAIResponse_success:
  "streamChatCompletion w cfg s so = (a, r, None)
     \<Longrightarrow> processAIResponse w cfg s so =
           (s\<lparr>LastRequestID := r, History := History s @ [\<lparr>Role = ''assistant'', Content = a\<rparr>]\<rparr>,
            a, None)"
  by (simp add: processAIResponse_def)

lemma processAIResponse_cases:
  obtains (failure) err where "processAIResponse w cfg s so = (s, [], Some err)"
  | (success) a r where
      "processAIResponse w cfg s so =
         (s\<lparr>LastRequestID := r, History := History s @ [\<lparr>Role = ''assistant'', Content = a\<rparr>]\<rparr>,
          a, None)"
proof (cases "streamChatCompletion w cfg s so")
  case (fields a r e)
  show thesis
  proof (cases e)
    case None
    with fields show thesis by (intro success) (simp add: processAIResponse_def)
  next
    case (Some err)
    with fields show thesis by (intro failure) (simp add: processAIResponse_def)
  qed
qed

text \<open>
  Claim C5. When the transport or the decoder fails after the user message was appended,
  the turn returns the error and the state whose history is the old one followed by
  the user message: its length is the old length plus one and no assistant message
  follows.
\<close>

theorem failed_turn_keeps_user_message:
  assumes "streamChatCompletion w cfg
             (s\<lparr>History := History s @ [\<lparr>Role = ''user'', Content = input\<rparr>]\<rparr>) so
           = (a, r, Some err)"
  shows "userTurn w cfg s input so =
           (s\<lparr>History := History s @ [\<lparr>Role = ''user'', Content = input\<rparr>]\<rparr>, [], Some err)
         \<and> length (History (fst (userTurn w cfg s input so))) = length (History s) + 1
         \<and> Role (last (History (fst (userTurn w cfg s input so)))) = ''user''"
  using assms by (simp add: userTurn_def processAIResponse_failure)

lemma handleCommand_not_command:
  "handleCommand input s = Returns (False, s') \<Longrightarrow> s' = s"
  by (auto simp: handleCommand_def split: if_splits)

text \<open>
  The loop iteration around a failed turn: the command log has received the input
  (line 164) before the turn starts, the history the user message, and nothing else
  differs.
\<close>

lemma sessionIteration_failed_turn:
  assumes "TrimSpace w input0 = input" and "input \<noteq> []"
    and "handleCommand input (s\<lparr>CmdHistory := CmdHistory s @ [input]\<rparr>) = Returns (False, s1)"
    and "streamChatCompletion w cfg
           (s1\<lparr>History := History s1 @ [\<lparr>Role = ''user'', Content = input\<rparr>]\<rparr>) True
         = (a, r, Some err)"
  shows "sessionIteration w cfg (Line input0) s =
           Returns (NextIteration
             (s\<lparr>CmdHistory := CmdHistory s @ [input],
                History := History s @ [\<lparr>Role = ''user'', Content = input\<rparr>]\<rparr>))"
proof -
  from assms(3) have s1: "s1 = s\<lparr>CmdHistory := CmdHistory s @ [input]\<rparr>"
    by (rule handleCommand_not_command)
  from assms(4) have "userTurn w cfg s1 input True =
      (s1\<lparr>History := History s1 @ [\<lparr>Role = ''user'', Content = input\<rparr>]\<rparr>, [], Some err)"
    by (simp add: userTurn_def processAIResponse_failure)
  with assms(1,2,3) show ?thesis
    by (simp add: sessionIteration_def s1)
qed

text \<open>
  Claim C10. A turn that returns an error leaves the last request id, the model, the
  debug flag, the command log, the client and the single-command flag as they were.
\<close>

theorem failed_turn_frame:
  assumes "snd (snd (userTurn w cfg s input so)) \<noteq> None"
  shows "LastRequestID (fst (userTurn w cfg s input so)) = LastRequestID s
         \<and> Model (fst (userTurn w cfg s input so)) = Model s
         \<and> Debug (fst (userTurn w cfg s input so)) = Debug s
         \<and> CmdHistory (fst (userTurn w cfg s input so)) = CmdHistory s
         \<and> Client (fst (userTurn w cfg s input so)) = Client s
         \<and> isSingleCmd (fst (userTurn w cfg s input so)) = isSingleCmd s"
proof -
  let ?s1 = "s\<lparr>History := History s @ [\<lparr>Role = ''user'', Content = input\<rparr>]\<rparr>"
  show ?thesis
  proof (cases rule: processAIResponse_cases [of w cfg ?s1 so])
    case (failure err)
    then show ?thesis by (simp add: userTurn_def)
  next
    case (success a r)
    with assms show ?thesis by (simp add: userTurn_def)
  qed
qed


lemma history_ok_initial: "history_ok (initialChatState cfg)"
  by (simp add: history_ok_def initialChatState_def system_preamble_def)

lemma history_ok_reset: "history_ok (resetConversation s)"
  by (simp add: history_ok_def resetConversation_def system_preamble_def)

lemma history_ok_model: "history_ok s \<Longrightarrow> history_ok (handleModelSwitch input s)"
  by (simp add: history_ok_def handleModelSwitch_def Let_def)

lemma history_ok_debug: "history_ok s \<Longrightarrow> history_ok (toggleDebugMode s)"
  by (simp add: history_ok_def toggleDebugMode_def)

lemma history_ok_record: "history_ok s \<Longrightarrow> history_ok (s\<lparr>CmdHistory := c\<rparr>)"
  by (simp add: history_ok_def)

lemma history_ok_handleCommand:
  "history_ok s \<Longrightarrow> handleCommand input s = Returns (b, s') \<Longrightarrow> history_ok s'"
  by (auto simp: handleCommand_def history_ok_reset history_ok_model history_ok_debug
      split: if_splits)

lemma history_ok_processAIResponse:
  "history_ok s \<Longrightarrow> history_ok (fst (processAIResponse w cfg s so))"
  by (cases rule: processAIResponse_cases [of w cfg s so]) (auto simp: history_ok_def)

lemma history_ok_userTurn:
  "history_ok s \<Longrightarrow> history_ok (fst (userTurn w cfg s input so))"
  unfolding userTurn_def
  by (rule history_ok_processAIResponse) (simp add: history_ok_def)

lemma history_ok_executeSingleCommand:
  assumes "history_ok s" and "executeSingleCommand w cfg s cmd = Returns (s', err)"
  shows "history_ok s'"
proof (cases "TrimSpace w cmd = []")
  case True
  with assms show ?thesis by (simp add: executeSingleCommand_def)
next
  case False
  let ?c = "TrimSpace w cmd"
  let ?s1 = "s\<lparr>CmdHistory := CmdHistory s @ [?c]\<rparr>"
  have ok1: "history_ok ?s1" using assms(1) by (rule history_ok_record)
  show ?thesis
  proof (cases "handleCommand ?c ?s1")
    case (Exits n)
    with False assms(2) show ?thesis by (simp add: executeSingleCommand_def)
  next
    case (Returns p)
    obtain b s2 where p: "p = (b, s2)" by (cases p)
    have ok2: "history_ok s2" using ok1 Returns p by (auto dest: history_ok_handleCommand)
    show ?thesis
    proof (cases b)
      case True
      with False assms(2) Returns p ok2 show ?thesis
        by (simp add: executeSingleCommand_def)
    next
      case notcmd: False
      with False assms(2) Returns p
      have "s' = fst (userTurn w cfg s2 ?c (enableStream cfg))"
        by (simp add: executeSingleCommand_def split: prod.splits)
      with ok2 show ?thesis by (simp add: history_ok_userTurn)
    qed
  qed
qed

lemma history_ok_sessionIteration:
  assumes "history_ok s"
    and "sessionIteration w cfg rl s = Returns (NextIteration s')
         \<or> sessionIteration w cfg rl s = Returns (BreakLoop s')"
  shows "history_ok s'"
proof (cases rl)
  case (Line input0)
  show ?thesis
  proof (cases "TrimSpace w input0 = []")
    case True
    with assms Line show ?thesis by (simp add: sessionIteration_def)
  next
    case False
    let ?c = "TrimSpace w input0"
    let ?s1 = "s\<lparr>CmdHistory := CmdHistory s @ [?c]\<rparr>"
    have ok1: "history_ok ?s1" using assms(1) by (rule history_ok_record)
    show ?thesis
    proof (cases "handleCommand ?c ?s1")
      case (Exits n)
      with False assms(2) Line show ?thesis by (simp add: sessionIteration_def)
    next
      case (Returns p)
      obtain b s2 where p: "p = (b, s2)" by (cases p)
      have ok2: "history_ok s2" using ok1 Returns p by (auto dest: history_ok_handleCommand)
      show ?thesis
      proof (cases b)
        case True
        with False assms(2) Line Returns p ok2 show ?thesis
          by (simp add: sessionIteration_def)
      next
        case notcmd: False
        with False assms(2) Line Returns p
        have "s' = fst (userTurn w cfg s2 ?c True)"
          by (simp add: sessionIteration_def split: prod.splits)
        with ok2 show ?thesis by (simp add: history_ok_userTurn)
      qed
    qed
  qed
next
  case (ErrInterrupt input0)
  with assms show ?thesis by (auto simp: sessionIteration_def split: if_splits)
next
  case ErrEOF
  with assms show ?thesis by (simp add: sessionIteration_def)
next
  case ErrReadline
  with assms show ?thesis by (simp add: sessionIteration_def)
qed

lemma reachable_history_ok: "reachable cfg s \<Longrightarrow> history_ok s"
proof (induction rule: reachable.induct)
  case init
  show ?case by (rule history_ok_initial)
next
  case (iteration_next s w rl s')
  then show ?case by (blast intro: history_ok_sessionIteration)
next
  case (iteration_break s w rl s')
  then show ?case by (blast intro: history_ok_sessionIteration)
next
  case (single_command s w cmd s' err)
  then show ?case by (blast intro: history_ok_executeSingleCommand)
qed

text \<open>
  Claim C8. In every state a session reaches (from the initial state through any loop
  iterations and single commands, in any worlds) the history is non-empty and starts
  with the system message; that message is always the preamble written by
  initialisation and by reset.
\<close>

theorem history_starts_with_system:
  "reachable cfg s \<Longrightarrow>
     History s \<noteq> [] \<and> Role (hd (History s)) = ''system'' \<and> hd (History s) = system_preamble"
  by (drule reachable_history_ok) (simp add: history_ok_def system_preamble_def)


theorem reset_yields_preamble_witness:
  "History (resetConversation (initialChatState example_config
      \<lparr>History := [system_preamble, \<lparr>Role = ''user'', Content = ''hi''\<rparr>],
       LastRequestID := ''r1'', CmdHistory := [''hi'']\<rparr>)) = [system_preamble]
   \<and> LastRequestID (resetConversation (initialChatState example_config
      \<lparr>History := [system_preamble, \<lparr>Role = ''user'', Content = ''hi''\<rparr>],
       LastRequestID := ''r1'', CmdHistory := [''hi'']\<rparr>)) = []
   \<and> CmdHistory (resetConversation (initialChatState example_config
      \<lparr>History := [system_preamble, \<lparr>Role = ''user'', Content = ''hi''\<rparr>],
       LastRequestID := ''r1'', CmdHistory := [''hi'']\<rparr>)) = [''hi'']"
  using reset_yields_preamble [of "initialChatState example_config
      \<lparr>History := [system_preamble, \<lparr>Role = ''user'', Content = ''hi''\<rparr>],
       LastRequestID := ''r1'', CmdHistory := [''hi'']\<rparr>"]
  by simp

theorem model_switch_allow_list_witness:
  "handleCommand ''/model deepseek-v3'' (initialChatState example_config)
     = Returns (True, initialChatState example_config\<lparr>Model := ''deepseek-v3''\<rparr>)
   \<and> handleCommand ''/model gpt-4 now'' (initialChatState example_config)
     = Returns (True, initialChatState example_config)"
  using model_switch_allow_list [of "''deepseek-v3''" "[]" "initialChatState example_config"]
    model_switch_allow_list [of "''gpt-4''" "'' now''" "initialChatState example_config"]
  by simp

theorem failed_turn_keeps_user_message_witness:
  "userTurn offline_world example_config (initialChatState example_config) ''hello'' True
     = (initialChatState example_config
          \<lparr>History := [system_preamble, \<lparr>Role = ''user'', Content = ''hello''\<rparr>]\<rparr>,
        [], Some ErrDo)
   \<and> length (History (fst (userTurn offline_world example_config
          (initialChatState example_config) ''hello'' True))) = 2"
proof -
  have "streamChatCompletion offline_world example_config
          ((initialChatState example_config)
             \<lparr>History := History (initialChatState example_config)
                @ [\<lparr>Role = ''user'', Content = ''hello''\<rparr>]\<rparr>) True
        = ([], [], Some ErrDo)"
    by (simp add: streamChatCompletion_def offline_world_def)
  from failed_turn_keeps_user_message [OF this] show ?thesis
    by (simp add: initialChatState_def system_preamble_def)
qed

theorem failed_turn_frame_witness:
  "snd (snd (userTurn offline_world example_config
       (initialChatState example_config\<lparr>LastRequestID := ''r1''\<rparr>) ''hello'' True)) = Some ErrDo
   \<and> LastRequestID (fst (userTurn offline_world example_config
       (initialChatState example_config\<lparr>LastRequestID := ''r1''\<rparr>) ''hello'' True)) = ''r1''
   \<and> Model (fst (userTurn offline_world example_config
       (initialChatState example_config\<lparr>LastRequestID := ''r1''\<rparr>) ''hello'' True)) = ''qwen-plus''"
proof -
  have e: "snd (snd (userTurn offline_world example_config
       (initialChatState example_config\<lparr>LastRequestID := ''r1''\<rparr>) ''hello'' True)) = Some ErrDo"
    by (simp add: userTurn_def processAIResponse_def streamChatCompletion_def offline_world_def)
  then have "snd (snd (userTurn offline_world example_config
       (initialChatState example_config\<lparr>LastRequestID := ''r1''\<rparr>) ''hello'' True)) \<noteq> None"
    by simp
  from failed_turn_frame [OF this] e show ?thesis
    by (simp add: initialChatState_def example_config_def)
qed

theorem history_starts_with_system_witness:
  "reachable example_config
     (initialChatState example_config
        \<lparr>CmdHistory := [''hello''],
         History := [system_preamble, \<lparr>Role = ''user'', Content = ''hello''\<rparr>]\<rparr>)
   \<and> Role (hd (History (initialChatState example_config
        \<lparr>CmdHistory := [''hello''],
         History := [system_preamble, \<lparr>Role = ''user'', Content = ''hello''\<rparr>]\<rparr>))) = ''system''"
proof -
  have step: "sessionIteration offline_world example_config (Line ''  hello '')
          (initialChatState example_config)
        = Returns (NextIteration (initialChatState example_config
            \<lparr>CmdHistory := [''hello''],
             History := [system_preamble, \<lparr>Role = ''user'', Content = ''hello''\<rparr>]\<rparr>))"
    by (simp add: sessionIteration_def handleCommand_def userTurn_def processAIResponse_def
        streamChatCompletion_def offline_world_def trim_ascii_def is_ascii_space_def
        initialChatState_def system_preamble_def Let_def)
  have r: "reachable example_config
     (initialChatState example_config
        \<lparr>CmdHistory := [''hello''],
         History := [system_preamble, \<lparr>Role = ''user'', Content = ''hello''\<rparr>]\<rparr>)"
    by (rule reachable.iteration_next [OF reachable.init step])
  from history_starts_with_system [OF r] r show ?thesis by simp
qed

end
